theory Spec2Isabelle
  imports Main "HOL-Library.Sublist" "HOL-Library.AList" "HOL-Library.Char_ord"
    "HOL-Library.List_Lexorder"
begin

section \<open>Strings\<close>

text \<open>
  Python strings are modelled as \<open>string\<close> (lists of bytes of the UTF-8 encoding). Every
  pattern the program searches for is ASCII, and UTF-8 is self-synchronising, so replacing
  and comparing byte strings agrees with Python's work on code points.

  \<open>str_replace old new s\<close> is Python's \<open>s.replace(old, new)\<close>: the occurrences of \<open>old\<close> are
  found from left to right, without overlap. For the empty pattern Python puts \<open>new\<close> before
  every character and at the end.
\<close>

function str_replace :: "string \<Rightarrow> string \<Rightarrow> string \<Rightarrow> string" where
  "str_replace old new s =
     (if old = [] then new @ concat (map (\<lambda>c. c # new) s)
      else if s = [] then []
      else if prefix old s then new @ str_replace old new (drop (length old) s)
      else hd s # str_replace old new (tl s))"
  by pat_completeness auto
termination
  by (relation "measure (\<lambda>(old, new, s). length s)") auto

declare str_replace.simps [simp del]

text \<open>\<open>"sep".join(xs)\<close>\<close>

fun str_join :: "string \<Rightarrow> string list \<Rightarrow> string" where
  "str_join sep [] = []"
| "str_join sep [x] = x"
| "str_join sep (x # y # ys) = x @ sep @ str_join sep (y # ys)"

text \<open>\<open>s.startswith(p)\<close> is \<open>prefix p s\<close>; \<open>fnmatch(name, "*.py")\<close> is \<open>suffix ''.py'' name\<close>.\<close>

section \<open>The field table\<close>

definition FIELD_TYPE_MAP :: "(string \<times> string) list" where
  "FIELD_TYPE_MAP =
    [(''CharField'', ''string''), (''TextField'', ''string''), (''SlugField'', ''string''),
     (''EmailField'', ''string''), (''URLField'', ''string''), (''DateField'', ''string''),
     (''DateTimeField'', ''string''), (''TimeField'', ''string''), (''BooleanField'', ''boolean''),
     (''NullBooleanField'', ''boolean''), (''IntegerField'', ''number''),
     (''SmallIntegerField'', ''number''), (''BigIntegerField'', ''number''),
     (''PositiveIntegerField'', ''number''), (''PositiveSmallIntegerField'', ''number''),
     (''FloatField'', ''number''), (''DecimalField'', ''number''), (''JSONField'', ''any''),
     (''DictField'', ''Record<string, any>''), (''ListField'', ''any[]''),
     (''SerializerMethodField'', ''any''), (''PrimaryKeyRelatedField'', ''number''),
     (''ManyRelatedField'', ''number[]''), (''ImageField'', ''string''),
     (''FileField'', ''string''), (''ChoiceField'', ''string'')]"

text \<open>\<open>FIELD_TYPE_MAP.get(k, "any")\<close> and \<open>FIELD_TYPE_MAP.values()\<close>\<close>

definition field_type_get :: "string \<Rightarrow> string" where
  "field_type_get k = (case map_of FIELD_TYPE_MAP k of Some t \<Rightarrow> t | None \<Rightarrow> ''any'')"

definition field_type_values :: "string list" where
  "field_type_values = map snd FIELD_TYPE_MAP"

section \<open>Serializer classes and their fields\<close>

text \<open>
  What the program reads of a field object: the name of its class, the two \<open>isinstance\<close>
  tests, and the class name of its \<open>child\<close> attribute when it has one.
\<close>

record field_obj =
  fclass_name :: string
  is_list_serializer :: bool
  is_base_serializer :: bool
  child_class_name :: "string option"

text \<open>
  A class: \<open>__name__\<close>, \<open>__module__\<close>, \<open>issubclass(cls, BaseSerializer)\<close> and the items of
  \<open>cls().get_fields()\<close>, \<open>None\<close> when instantiating or querying raises. The loader never
  reads \<open>__name__\<close>: it names a class by the attribute under which the module holds it.
\<close>

record py_class =
  cls_name :: string
  cls_module :: string
  is_serializer :: bool
  get_fields :: "(string \<times> field_obj) list option"

datatype error = LoadError | FieldsError | PathError

text \<open>\<open>name.replace("Serializer", "")\<close>, used at all three places that derive a name.\<close>

definition derived_name :: "string \<Rightarrow> string" where
  "derived_name name = str_replace ''Serializer'' [] name"


text \<open>The body of the loop of \<open>extract_serializer_fields\<close>: the type string of one field.\<close>

definition field_ts_type :: "field_obj \<Rightarrow> string" where
  "field_ts_type field =
     (case (if is_list_serializer field then child_class_name field else None) of
        Some child \<Rightarrow> derived_name child @ ''[]''
      | None \<Rightarrow>
          if is_base_serializer field then derived_name (fclass_name field)
          else field_type_get (fclass_name field))"

definition extract_serializer_fields :: "py_class \<Rightarrow> error + (string \<times> string) list" where
  "extract_serializer_fields cls =
     (case get_fields cls of
        None \<Rightarrow> Inl FieldsError
      | Some items \<Rightarrow>
          Inr (fold (\<lambda>(field_name, field) fields.
                 AList.update field_name (field_ts_type field) fields) items []))"

section \<open>Loading a source file\<close>

text \<open>
  A path is the list of its components. Of an entry under the source root the program uses
  its path relative to the root and what loading it gives: the pairs of
  \<open>inspect.getmembers(module, inspect.isclass)\<close> in the order returned, \<open>None\<close> when
  executing the file raises. The name of a pair is the attribute name in the module; for a
  class statement it is the class's \<open>__name__\<close>.
\<close>

type_synonym path = "string list"

record source_file =
  rel_parts :: path
  load :: "(string \<times> py_class) list option"

definition find_serializer_classes ::
    "source_file \<Rightarrow> string \<Rightarrow> error + (string \<times> py_class) list" where
  "find_serializer_classes file module_path =
     (case load file of
        None \<Rightarrow> Inl LoadError
      | Some members \<Rightarrow>
          Inr (map (\<lambda>(name, cls). (derived_name name, cls))
                 (filter (\<lambda>(name, cls). is_serializer cls \<and> cls_module cls = module_path)
                    members)))"

text \<open>\<open>file_path.name\<close>, and \<open>name.rfind(c)\<close> with \<open>None\<close> for Python's \<open>-1\<close>.\<close>

definition file_name :: "path \<Rightarrow> string" where
  "file_name parts = (if parts = [] then [] else last parts)"

definition rfind_char :: "char \<Rightarrow> string \<Rightarrow> nat option" where
  "rfind_char c s =
     (let k = length (takeWhile (\<lambda>x. x \<noteq> c) (rev s))
      in if k = length s then None else Some (length s - 1 - k))"

text \<open>
  The name of \<open>p.with_suffix("")\<close>: the suffix starts at the last dot, when that dot is
  neither the first nor the last character of the name.
\<close>

definition with_suffix_empty :: "string \<Rightarrow> string" where
  "with_suffix_empty name =
     (case rfind_char (CHR ''.'') name of
        None \<Rightarrow> name
      | Some i \<Rightarrow> if 0 < i \<and> i < length name - 1 then take i name else name)"

text \<open>
  \<open>".".join(["api.serializers"] + list(relative_path.with_suffix("").parts))\<close>;
  \<open>with_suffix\<close> raises on a path with an empty name.
\<close>

definition module_path_of :: "path \<Rightarrow> error + string" where
  "module_path_of relative_path =
     (if file_name relative_path = [] then Inl PathError
      else Inr (str_join ''.''
             (''api.serializers'' #
                butlast relative_path @ [with_suffix_empty (file_name relative_path)])))"

section \<open>The discovery pass of \<open>main\<close>\<close>

text \<open>
  The two dictionaries \<open>interface_locations\<close> and \<open>all_interfaces\<close> are association lists
  in insertion order; \<open>d[k] = v\<close> is \<open>AList.update\<close>, which keeps the position of a key
  that is already there. Interface names are Python identifiers, so
  \<open>out_base / relative_path.parent / f"{interface_name}.ts"\<close> adds one component.
\<close>

type_synonym locations = "(string \<times> path) list"
type_synonym interfaces = "(string \<times> (string \<times> string) list \<times> path) list"

fun scan_classes ::
    "path \<Rightarrow> path \<Rightarrow> (string \<times> py_class) list \<Rightarrow> locations \<times> interfaces
      \<Rightarrow> error + locations \<times> interfaces" where
  "scan_classes out_base parent [] st = Inr st"
| "scan_classes out_base parent ((interface_name, cls) # rest) (locs, alls) =
     (case extract_serializer_fields cls of
        Inl e \<Rightarrow> Inl e
      | Inr flds \<Rightarrow>
          (let out_path = out_base @ parent @ [interface_name @ ''.ts'']
           in scan_classes out_base parent rest
                (AList.update interface_name out_path locs,
                 AList.update interface_name (flds, out_path) alls)))"

fun scan_files ::
    "path \<Rightarrow> source_file list \<Rightarrow> locations \<times> interfaces \<Rightarrow> error + locations \<times> interfaces" where
  "scan_files out_base [] st = Inr st"
| "scan_files out_base (file # files) st =
     (if prefix ''__'' (file_name (rel_parts file)) then scan_files out_base files st
      else
        (case module_path_of (rel_parts file) of
           Inl e \<Rightarrow> Inl e
         | Inr module_path \<Rightarrow>
             (case find_serializer_classes file module_path of
                Inl e \<Rightarrow> Inl e
              | Inr classes \<Rightarrow>
                  (case scan_classes out_base (butlast (rel_parts file)) classes st of
                     Inl e \<Rightarrow> Inl e
                   | Inr st' \<Rightarrow> scan_files out_base files st'))))"

text \<open>
  The iterations of the first loop nest of \<open>main\<close>, in order: for each file that is not
  skipped, each pair returned by \<open>find_serializer_classes\<close>, with
  \<open>relative_path.parent\<close>.
\<close>

definition file_pairs :: "source_file \<Rightarrow> (string \<times> py_class \<times> path) list" where
  "file_pairs file =
     (if prefix ''__'' (file_name (rel_parts file)) then []
      else
        (case module_path_of (rel_parts file) of
           Inl e \<Rightarrow> []
         | Inr module_path \<Rightarrow>
             (case find_serializer_classes file module_path of
                Inl e \<Rightarrow> []
              | Inr classes \<Rightarrow>
                  map (\<lambda>(interface_name, cls). (interface_name, cls, butlast (rel_parts file)))
                    classes)))"

definition loader_pairs :: "source_file list \<Rightarrow> (string \<times> py_class \<times> path) list" where
  "loader_pairs files = concat (map file_pairs files)"


text \<open>\<open>base.rglob("*.py")\<close> over the entries under the root, in traversal order.\<close>

definition rglob_py :: "source_file list \<Rightarrow> source_file list" where
  "rglob_py tree = filter (\<lambda>file. suffix ''.py'' (file_name (rel_parts file))) tree"

section \<open>Writing\<close>

definition os_sep :: string where
  "os_sep = ''/''"

text \<open>
  \<open>os.path.relpath(path, start)\<close> for two absolute, normalised paths: one \<open>..\<close> for each
  component of \<open>start\<close> below the common prefix, then the rest of \<open>path\<close>.
\<close>

definition relpath :: "path \<Rightarrow> path \<Rightarrow> string" where
  "relpath p start =
     (let i = length (longest_common_prefix start p);
          rel_list = replicate (length start - i) ''..'' @ drop i p
      in if rel_list = [] then ''.'' else str_join os_sep rel_list)"

text \<open>\<open>os.path.relpath(p, start).replace(".ts", "").replace(os.sep, "/")\<close>\<close>

definition rel_import :: "path \<Rightarrow> path \<Rightarrow> string" where
  "rel_import p start = str_replace os_sep ''/'' (str_replace ''.ts'' [] (relpath p start))"

definition import_line :: "string \<Rightarrow> string \<Rightarrow> string" where
  "import_line dep rel_path =
     ''import type { '' @ dep @ '' } from './'' @ rel_path @ [CHR 0x27] @ '';\<newline>''"

text \<open>The first loop of \<open>write_ts_interface\<close>, over \<open>sorted(deps)\<close>.\<close>

fun import_lines :: "string \<Rightarrow> locations \<Rightarrow> path \<Rightarrow> string list \<Rightarrow> string list" where
  "import_lines name locs current_dir [] = []"
| "import_lines name locs current_dir (dep # deps) =
     (if dep = name then import_lines name locs current_dir deps
      else
        (case map_of locs dep of
           None \<Rightarrow> import_lines name locs current_dir deps
         | Some dep_path \<Rightarrow>
             import_line dep (rel_import dep_path current_dir) #
               import_lines name locs current_dir deps))"

definition field_line :: "string \<times> string \<Rightarrow> string" where
  "field_line = (\<lambda>(field, ts_type). ''  '' @ field @ ''?: '' @ ts_type @ '';\<newline>'')"

text \<open>The arguments of the calls \<open>f.write(...)\<close> of \<open>write_ts_interface\<close>, in order.\<close>

definition ts_interface_chunks ::
    "string \<Rightarrow> (string \<times> string) list \<Rightarrow> string set \<Rightarrow> path \<Rightarrow> locations \<Rightarrow> string list" where
  "ts_interface_chunks name flds deps current_dir locs =
     import_lines name locs current_dir (sorted_list_of_set deps) @
     (if deps \<noteq> {} then [''\<newline>''] else []) @
     [''export interface '' @ name @ '' {\<newline>''] @
     map field_line flds @
     [''}\<newline>'']"

text \<open>
  The file system is a map from paths to contents. Creating directories and opening files
  are taken to succeed; a write replaces what the path held.
\<close>

type_synonym filesystem = "path \<rightharpoonup> string"

definition write_ts_interface ::
    "string \<Rightarrow> (string \<times> string) list \<Rightarrow> path \<Rightarrow> string set \<Rightarrow> path \<Rightarrow> locations
      \<Rightarrow> path \<times> string" where
  "write_ts_interface name flds out_path deps current_dir locs =
     (out_path, concat (ts_interface_chunks name flds deps current_dir locs))"

text \<open>The set comprehension \<open>deps\<close> of \<open>main\<close>.\<close>

definition deps_of :: "(string \<times> string) list \<Rightarrow> string set" where
  "deps_of flds =
     str_replace ''[]'' [] `
       set (filter (\<lambda>t. t \<notin> set field_type_values \<and> t \<noteq> ''any'') (map snd flds))"

definition export_line :: "path \<Rightarrow> path \<Rightarrow> string" where
  "export_line out_path out_base =
     ''export * from './'' @ rel_import out_path out_base @ [CHR 0x27] @ '';''"

text \<open>
  The second loop of \<open>main\<close>: the files written, in order, and \<open>index_lines\<close>.
\<close>

fun write_all ::
    "path \<Rightarrow> locations \<Rightarrow> interfaces \<Rightarrow> (path \<times> string) list \<times> string list" where
  "write_all out_base locs [] = ([], [])"
| "write_all out_base locs ((interface_name, flds, out_path) # rest) =
     (let w = write_ts_interface interface_name flds out_path (deps_of flds)
                (butlast out_path) locs;
          l = export_line out_path out_base;
          (ws, ls) = write_all out_base locs rest
      in (w # ws, l # ls))"

definition TEMP_INDEX_FILENAME :: string where
  "TEMP_INDEX_FILENAME = ''tempindex.ts''"

definition index_header :: string where
  "index_header =
     ''// '' @ [CHR 0xF0, CHR 0x9F, CHR 0x94, CHR 0x84] @
     '' Auto-generated. Do not edit manually.\<newline>\<newline>''"

definition index_content :: "string list \<Rightarrow> string" where
  "index_content index_lines =
     index_header @ str_join ''\<newline>'' (sorted_list_of_set (set index_lines)) @ ''\<newline>''"

text \<open>
  All writes of one run of \<open>main\<close>, in order: the interface files, then the index. The run
  writes nothing when the discovery pass raises.
\<close>

definition main_writes :: "path \<Rightarrow> source_file list \<Rightarrow> error + (path \<times> string) list" where
  "main_writes out_base tree =
     (case scan_files out_base (rglob_py tree) ([], []) of
        Inl e \<Rightarrow> Inl e
      | Inr (locs, alls) \<Rightarrow>
          (let (ws, index_lines) = write_all out_base locs alls
           in Inr (ws @ [(out_base @ [TEMP_INDEX_FILENAME], index_content index_lines)])))"

definition apply_writes :: "(path \<times> string) list \<Rightarrow> filesystem \<Rightarrow> filesystem" where
  "apply_writes ws fs = fold (\<lambda>(p, content) fs. fs(p \<mapsto> content)) ws fs"

definition main :: "path \<Rightarrow> source_file list \<Rightarrow> filesystem \<Rightarrow> error + filesystem" where
  "main out_base tree fs =
     (case main_writes out_base tree of
        Inl e \<Rightarrow> Inl e
      | Inr ws \<Rightarrow> Inr (apply_writes ws fs))"

section \<open>An example tree\<close>

text \<open>
  Field objects and classes as Django REST framework builds them: a plain field, a nested
  serializer, and a nested serializer declared with \<open>many=True\<close> (a \<open>ListSerializer\<close>
  around the child).
\<close>

definition plain_field :: "string \<Rightarrow> field_obj" where
  "plain_field k =
     \<lparr>fclass_name = k, is_list_serializer = False, is_base_serializer = False,
      child_class_name = None\<rparr>"

definition nested_field :: "string \<Rightarrow> field_obj" where
  "nested_field k =
     \<lparr>fclass_name = k, is_list_serializer = False, is_base_serializer = True,
      child_class_name = None\<rparr>"

definition many_field :: "string \<Rightarrow> field_obj" where
  "many_field k =
     \<lparr>fclass_name = ''ListSerializer'', is_list_serializer = True, is_base_serializer = True,
      child_class_name = Some k\<rparr>"

definition serializer_class ::
    "string \<Rightarrow> string \<Rightarrow> (string \<times> field_obj) list \<Rightarrow> py_class" where
  "serializer_class n m items =
     \<lparr>cls_name = n, cls_module = m, is_serializer = True, get_fields = Some items\<rparr>"

definition book_items :: "(string \<times> field_obj) list" where
  "book_items =
     [(''author'', nested_field ''AuthorSerializer''), (''title'', plain_field ''CharField''),
      (''pages'', plain_field ''IntegerField''), (''meta'', plain_field ''DictField''),
      (''tags'', many_field ''TagSerializer''),
      (''cover'', plain_field ''HyperlinkedIdentityField'')]"

definition book_class :: py_class where
  "book_class = serializer_class ''BookSerializer'' ''api.serializers.lib.books'' book_items"

definition author_class :: py_class where
  "author_class =
     serializer_class ''AuthorSerializer'' ''api.serializers.lib.books''
       [(''name'', plain_field ''CharField'')]"

definition tag_class :: py_class where
  "tag_class =
     serializer_class ''TagSerializer'' ''api.serializers.tag''
       [(''label'', plain_field ''SlugField'')]"

definition paginator_class :: py_class where
  "paginator_class =
     \<lparr>cls_name = ''Paginator'', cls_module = ''api.serializers.lib.books'',
      is_serializer = False, get_fields = None\<rparr>"

definition books_file :: source_file where
  "books_file = \<lparr>rel_parts = [''lib'', ''books.py''],
     load = Some [(''AuthorSerializer'', author_class), (''BookSerializer'', book_class),
                  (''Paginator'', paginator_class), (''TagSerializer'', tag_class)]\<rparr>"

definition init_file :: source_file where
  "init_file = \<lparr>rel_parts = [''lib'', ''__init__.py''], load = None\<rparr>"

definition tag_file :: source_file where
  "tag_file = \<lparr>rel_parts = [''tag.py''], load = Some [(''TagSerializer'', tag_class)]\<rparr>"

definition example_tree :: "source_file list" where
  "example_tree = [books_file, init_file, tag_file]"




definition apostrophe :: string where
  "apostrophe = [CHR 0x27]"

definition example_writes :: "(path \<times> string) list" where
  "example_writes =
     [([''out'', ''lib'', ''Author.ts''],
       ''export interface Author {\<newline>  name?: string;\<newline>}\<newline>''),
      ([''out'', ''lib'', ''Book.ts''],
       ''import type { Author } from '' @ apostrophe @ ''./Author'' @ apostrophe @ '';\<newline>'' @
       ''import type { Tag } from '' @ apostrophe @ ''./../Tag'' @ apostrophe @ '';\<newline>'' @
       ''\<newline>'' @
       ''export interface Book {\<newline>'' @
       ''  author?: Author;\<newline>  title?: string;\<newline>  pages?: number;\<newline>'' @
       ''  meta?: Record<string, any>;\<newline>  tags?: Tag[];\<newline>  cover?: any;\<newline>}\<newline>''),
      ([''out'', ''Tag.ts''],
       ''export interface Tag {\<newline>  label?: string;\<newline>}\<newline>''),
      ([''out'', ''tempindex.ts''],
       ''// '' @ [CHR 0xF0, CHR 0x9F, CHR 0x94, CHR 0x84] @
       '' Auto-generated. Do not edit manually.\<newline>\<newline>'' @
       ''export * from '' @ apostrophe @ ''./Tag'' @ apostrophe @ '';\<newline>'' @
       ''export * from '' @ apostrophe @ ''./lib/Author'' @ apostrophe @ '';\<newline>'' @
       ''export * from '' @ apostrophe @ ''./lib/Book'' @ apostrophe @ '';\<newline>'')]"







definition owner_class :: py_class where
  "owner_class =
     serializer_class ''OwnerSerializer'' ''api.serializers.posts''
       [(''nick'', nested_field ''stringSerializer''),
        (''scores'', many_field ''numberSerializer'')]"

definition post_class :: py_class where
  "post_class =
     serializer_class ''PostSerializer'' ''api.serializers.posts''
       [(''labels'', many_field ''stringSerializer'')]"



lemmas example_defs =
  book_class_def book_items_def plain_field_def nested_field_def many_field_def
  serializer_class_def

lemmas tree_defs = example_tree_def books_file_def init_file_def tag_file_def author_class_def
  tag_class_def paginator_class_def

section \<open>Evaluating the example\<close>


lemma example_run: "main_writes [''out''] example_tree = Inr example_writes"
  by code_simp

section \<open>Replacing in strings\<close>

lemma str_replace_Nil: "old \<noteq> [] \<Longrightarrow> str_replace old new [] = []"
  by (simp add: str_replace.simps)

lemma str_replace_Cons_other:
  "old \<noteq> [] \<Longrightarrow> \<not> prefix old (c # s) \<Longrightarrow>
   str_replace old new (c # s) = c # str_replace old new s"
  by (subst str_replace.simps) simp

lemma str_replace_match:
  "old \<noteq> [] \<Longrightarrow> str_replace old new (old @ s) = new @ str_replace old new s"
  by (subst str_replace.simps) simp

lemma str_replace_absent:
  "old \<noteq> [] \<Longrightarrow> \<not> sublist old s \<Longrightarrow> str_replace old new s = s"
proof (induction s)
  case Nil
  then show ?case by (simp add: str_replace_Nil)
next
  case (Cons c s)
  then have "\<not> prefix old (c # s)" "\<not> sublist old s"
    by (auto simp: sublist_Cons_right)
  with Cons show ?case by (simp add: str_replace_Cons_other)
qed



lemma derived_name_absent:
  "\<not> sublist ''Serializer'' name \<Longrightarrow> derived_name name = name"
  by (simp add: derived_name_def str_replace_absent)

lemma str_replace_set:
  "set (str_replace old [] s) \<subseteq> set s"
proof (induction "length s" arbitrary: s rule: less_induct)
  case less
  show ?case
  proof (cases "old = []")
    case True
    then have "str_replace old [] s = s"
      by (subst str_replace.simps) (simp add: concat_map_singleton)
    then show ?thesis by simp
  next
    case False
    show ?thesis
    proof (cases s)
      case Nil
      then show ?thesis using False by (simp add: str_replace_Nil)
    next
      case (Cons c cs)
      show ?thesis
      proof (cases "prefix old s")
        case True
        then obtain r where r: "s = old @ r" by (auto simp: prefix_def)
        with False have "length r < length s" by simp
        from less [OF this] show ?thesis
          using r False str_replace_match [of old "[]" r] by auto
      next
        case np: False
        then have "str_replace old [] s = c # str_replace old [] cs"
          using False Cons by (simp add: str_replace_Cons_other)
        moreover have "length cs < length s" using Cons by simp
        ultimately show ?thesis using less [of cs] Cons by auto
      qed
    qed
  qed
qed







section \<open>The field mapper\<close>

lemma fold_update_notin:
  "k \<notin> fst ` set items \<Longrightarrow>
   map_of (fold (\<lambda>(n, f) acc. AList.update n (g f) acc) items acc) k = map_of acc k"
  by (induction items arbitrary: acc) (auto simp: AList.update_conv')

lemma fold_update_in:
  "distinct (map fst items) \<Longrightarrow> (k, f) \<in> set items \<Longrightarrow>
   map_of (fold (\<lambda>(n, f) acc. AList.update n (g f) acc) items acc) k = Some (g f)"
proof (induction items arbitrary: acc)
  case Nil
  then show ?case by simp
next
  case (Cons it items)
  show ?case
  proof (cases "it = (k, f)")
    case True
    with Cons.prems have "k \<notin> fst ` set items" by auto
    then show ?thesis using True
      by (simp add: fold_update_notin AList.update_conv')
  next
    case False
    with Cons.prems have "(k, f) \<in> set items" "distinct (map fst items)" by auto
    then show ?thesis using Cons.IH by simp
  qed
qed

lemma fold_update_keys:
  "fst ` set (fold (\<lambda>(n, f) acc. AList.update n (g f) acc) items acc) =
   fst ` set acc \<union> fst ` set items"
proof (induction items arbitrary: acc)
  case Nil
  then show ?case by simp
next
  case (Cons it items)
  obtain n f where it: "it = (n, f)" by (cases it)
  have "fst ` set (AList.update n (g f) acc) = {n} \<union> fst ` set acc"
    by (rule AList.dom_update)
  then show ?case using Cons.IH [of "AList.update n (g f) acc"] it
    by (simp add: Un_assoc insert_commute)
qed

lemma fold_update_distinct:
  "distinct (map fst acc) \<Longrightarrow>
   distinct (map fst (fold (\<lambda>(n, f) acc. AList.update n (g f) acc) items acc))"
  by (induction items arbitrary: acc) (auto simp: AList.distinct_update)

lemma extract_lookup:
  assumes "get_fields cls = Some items" and "distinct (map fst items)"
    and "(field_name, field) \<in> set items"
  shows "\<exists>flds. extract_serializer_fields cls = Inr flds \<and>
           map_of flds field_name = Some (field_ts_type field)"
  using assms fold_update_in [of items field_name field field_ts_type "[]"]
  by (simp add: extract_serializer_fields_def)

lemma extract_distinct:
  "extract_serializer_fields cls = Inr flds \<Longrightarrow> distinct (map fst flds)"
  using fold_update_distinct [of "[]" field_ts_type]
  by (auto simp: extract_serializer_fields_def split: option.splits)



text \<open>
  C3. A field that is neither a serializer instance nor a \<open>ListSerializer\<close> with a child, and
  whose class name is a key of \<open>FIELD_TYPE_MAP\<close>, resolves to the table's entry; so
  \<open>CharField\<close> gives \<open>string\<close>, \<open>IntegerField\<close> gives \<open>number\<close> and \<open>DictField\<close> gives
  \<open>Record<string, any>\<close>.
\<close>

theorem table_field_types:
  assumes "get_fields cls = Some items" and "distinct (map fst items)"
    and "(field_name, field) \<in> set items"
    and "\<not> is_base_serializer field"
    and "\<not> (is_list_serializer field \<and> child_class_name field \<noteq> None)"
  shows "\<exists>flds. extract_serializer_fields cls = Inr flds \<and>
    (\<forall>t. map_of FIELD_TYPE_MAP (fclass_name field) = Some t \<longrightarrow>
       map_of flds field_name = Some t) \<and>
    (fclass_name field = ''CharField'' \<longrightarrow> map_of flds field_name = Some ''string'') \<and>
    (fclass_name field = ''IntegerField'' \<longrightarrow> map_of flds field_name = Some ''number'') \<and>
    (fclass_name field = ''DictField'' \<longrightarrow>
       map_of flds field_name = Some ''Record<string, any>'')"
proof -
  from extract_lookup [OF assms(1-3)] obtain flds where
    f: "extract_serializer_fields cls = Inr flds"
       "map_of flds field_name = Some (field_ts_type field)" by blast
  have ty: "field_ts_type field = field_type_get (fclass_name field)"
    using assms(4,5) by (auto simp: field_ts_type_def)
  have "map_of FIELD_TYPE_MAP (fclass_name field) = Some t \<longrightarrow> field_ts_type field = t" for t
    by (simp add: ty field_type_get_def)
  moreover have "field_type_get ''CharField'' = ''string''"
    "field_type_get ''IntegerField'' = ''number''"
    "field_type_get ''DictField'' = ''Record<string, any>''"
    by (simp_all add: field_type_get_def FIELD_TYPE_MAP_def)
  ultimately show ?thesis using f ty by auto
qed

theorem table_field_types_witness:
  "\<exists>flds. extract_serializer_fields book_class = Inr flds \<and>
     map_of flds ''meta'' = Some ''Record<string, any>''"
  using table_field_types [of book_class book_items "''meta''" "plain_field ''DictField''"]
  by (auto simp: example_defs)

text \<open>
  C7. A field that is neither a serializer instance nor a \<open>ListSerializer\<close> with a child, and
  whose class name is not a key of \<open>FIELD_TYPE_MAP\<close>, resolves to \<open>any\<close>, and the extraction
  returns a mapping instead of raising.
\<close>

theorem unknown_field_is_any:
  assumes "get_fields cls = Some items" and "distinct (map fst items)"
    and "(field_name, field) \<in> set items"
    and "\<not> is_base_serializer field"
    and "\<not> (is_list_serializer field \<and> child_class_name field \<noteq> None)"
    and "map_of FIELD_TYPE_MAP (fclass_name field) = None"
  shows "\<exists>flds. extract_serializer_fields cls = Inr flds \<and>
           map_of flds field_name = Some ''any''"
proof -
  have "field_ts_type field = ''any''"
    using assms(4-6) by (auto simp: field_ts_type_def field_type_get_def)
  then show ?thesis using extract_lookup [OF assms(1-3)] by simp
qed

theorem unknown_field_is_any_witness:
  "\<exists>flds. extract_serializer_fields book_class = Inr flds \<and>
     map_of flds ''cover'' = Some ''any''"
  using unknown_field_is_any [of book_class book_items "''cover''"
      "plain_field ''HyperlinkedIdentityField''"]
  by (simp add: example_defs FIELD_TYPE_MAP_def)

section \<open>The loader\<close>

lemma scan_files_skip:
  "scan_files out_base (filter (\<lambda>file. \<not> prefix ''__'' (file_name (rel_parts file))) files) st =
   scan_files out_base files st"
  by (induction files arbitrary: st) (auto split: sum.splits)

lemma rglob_py_skip:
  "rglob_py (filter P tree) = filter P (rglob_py tree)"
  by (induction tree) (auto simp: rglob_py_def)

text \<open>
  C6. Of a loaded module the loader returns the pair of a derived name and a class exactly
  for the members that are subclasses of \<open>BaseSerializer\<close> and whose \<open>__module__\<close> is the
  module path being scanned. Files whose name starts with \<open>__\<close> are not loaded: a run
  over the tree without them writes the same, or fails the same.
\<close>

theorem loader_qualifying_classes:
  assumes "load file = Some members"
  shows "\<exists>classes. find_serializer_classes file module_path = Inr classes \<and>
    (\<forall>interface_name cls. (interface_name, cls) \<in> set classes \<longleftrightarrow>
       (\<exists>name. (name, cls) \<in> set members \<and> interface_name = derived_name name \<and>
          is_serializer cls \<and> cls_module cls = module_path)) \<and>
    main_writes out_base
        (filter (\<lambda>file. \<not> prefix ''__'' (file_name (rel_parts file))) tree) =
      main_writes out_base tree"
proof -
  have "main_writes out_base
        (filter (\<lambda>file. \<not> prefix ''__'' (file_name (rel_parts file))) tree) =
      main_writes out_base tree"
    by (simp add: main_writes_def rglob_py_skip scan_files_skip)
  then show ?thesis using assms
    by (auto simp: find_serializer_classes_def)
qed

theorem loader_qualifying_classes_witness:
  "\<exists>classes. find_serializer_classes books_file ''api.serializers.lib.books'' = Inr classes \<and>
     (''Author'', author_class) \<in> set classes \<and> (''Tag'', tag_class) \<notin> set classes \<and>
     main_writes [''out''] [books_file, tag_file] = main_writes [''out''] example_tree"
  using loader_qualifying_classes [of books_file
      "[(''AuthorSerializer'', author_class), (''BookSerializer'', book_class),
        (''Paginator'', paginator_class), (''TagSerializer'', tag_class)]"
      "''api.serializers.lib.books''" "[''out'']" example_tree]
  apply (simp add: tree_defs example_defs file_name_def)
  apply (auto simp add: derived_name_def str_replace.simps)
  done

section \<open>The interface declaration\<close>

lemma field_line_inj:
  assumes "CHR ''?'' \<notin> set f" and "CHR ''?'' \<notin> set f'"
    and "field_line (f, t) = field_line (f', t')"
  shows "f = f' \<and> t = t'"
proof -
  from assms(3) have eq: "f @ CHR ''?'' # ('': '' @ t @ '';\<newline>'') = f' @ CHR ''?'' # ('': '' @ t' @ '';\<newline>'')"
    by (simp add: field_line_def)
  have "takeWhile (\<lambda>c. c \<noteq> CHR ''?'') (f @ CHR ''?'' # r) = f" if "CHR ''?'' \<notin> set f" for f r
    using that by (induction f) auto
  from this [OF assms(1)] this [OF assms(2)] eq have "f = f'" by metis
  with eq show ?thesis by simp
qed

lemma distinct_count_list:
  "distinct xs \<Longrightarrow> x \<in> set xs \<Longrightarrow> count_list xs x = 1"
  by (induction xs) auto

lemma import_lines_hd:
  "l \<in> set (import_lines name locs cur deps) \<Longrightarrow> prefix ''import'' l"
  by (induction deps) (auto simp: import_line_def split: if_splits option.splits)

section \<open>Imports\<close>

lemma import_lines_filter:
  "import_lines name locs cur ds =
   map (\<lambda>dep. import_line dep (rel_import (the (map_of locs dep)) cur))
     (filter (\<lambda>dep. dep \<noteq> name \<and> map_of locs dep \<noteq> None) ds)"
  by (induction ds) (auto split: option.splits)

lemma deps_of_iff:
  "d \<in> deps_of flds \<longleftrightarrow>
   (\<exists>t \<in> snd ` set flds. t \<notin> set field_type_values \<and> t \<noteq> ''any'' \<and> d = str_replace ''[]'' [] t)"
  by (auto simp: deps_of_def)

lemma finite_deps_of: "finite (deps_of flds)"
  by (simp add: deps_of_def)

lemma write_all_map:
  "write_all out_base locs alls =
   (map (\<lambda>(name, flds, out_path).
           write_ts_interface name flds out_path (deps_of flds) (butlast out_path) locs) alls,
    map (\<lambda>(name, flds, out_path). export_line out_path out_base) alls)"
  by (induction alls) (auto simp: Let_def)

section \<open>Running twice\<close>

lemma apply_writes_map_add: "apply_writes ws fs = fs ++ map_of (rev ws)"
proof (induction ws arbitrary: fs)
  case Nil
  then show ?case by (simp add: apply_writes_def)
next
  case (Cons w ws)
  obtain p c where w: "w = (p, c)" by (cases w)
  have "apply_writes (w # ws) fs = apply_writes ws (fs(p \<mapsto> c))"
    by (simp add: apply_writes_def w)
  also have "\<dots> = fs(p \<mapsto> c) ++ map_of (rev ws)" by (rule Cons.IH)
  also have "\<dots> = fs ++ map_of (rev (w # ws))"
    by (simp add: w map_of_append del: map_add_assoc)
       (simp add: map_add_def fun_eq_iff split: option.splits)
  finally show ?case .
qed

lemma apply_writes_twice: "apply_writes ws (apply_writes ws fs) = apply_writes ws fs"
  by (simp add: apply_writes_map_add map_add_def fun_eq_iff split: option.splits)

text \<open>
  C9. A run that succeeds on a file system leaves a file system on which a second run over
  the same tree succeeds and changes nothing: every interface file and the index file hold
  the same bytes after both runs.
\<close>

theorem main_idempotent:
  assumes "main out_base tree fs = Inr fs1"
  shows "main out_base tree fs1 = Inr fs1"
  using assms by (auto simp: main_def apply_writes_twice split: sum.splits)

theorem main_idempotent_witness:
  "main [''out''] example_tree Map.empty = Inr (apply_writes example_writes Map.empty) \<and>
   main [''out''] example_tree (apply_writes example_writes Map.empty) =
     Inr (apply_writes example_writes Map.empty)"
proof -
  have h: "main [''out''] example_tree Map.empty = Inr (apply_writes example_writes Map.empty)"
    by (simp add: main_def example_run)
  show ?thesis using h main_idempotent [OF h] by simp
qed

section \<open>Output files\<close>

lemma update_fresh: "k \<notin> fst ` set al \<Longrightarrow> AList.update k v al = al @ [(k, v)]"
  by (induction al) auto







lemma main_writes_Inr:
  assumes "main_writes out_base tree = Inr ws"
  shows "\<exists>locs alls. scan_files out_base (rglob_py tree) ([], []) = Inr (locs, alls) \<and>
     ws = map (\<lambda>(name, flds, out_path).
                 write_ts_interface name flds out_path (deps_of flds) (butlast out_path) locs)
            alls @
          [(out_base @ [TEMP_INDEX_FILENAME],
            index_content (map (\<lambda>(name, flds, out_path). export_line out_path out_base) alls))]"
  using assms by (auto simp: main_writes_def write_all_map split: sum.splits)

section \<open>The index\<close>



lemma update_set_subset: "set (AList.update k v al) \<subseteq> insert (k, v) (set al)"
  by (induction al) auto

lemma scan_classes_inv:
  assumes "scan_classes out_base parent cs (locs, alls) = Inr (locs', alls')"
    and "distinct (map fst alls)" and "\<forall>e \<in> set alls. R e"
    and "\<And>n cls flds. (n, cls) \<in> set cs \<Longrightarrow> extract_serializer_fields cls = Inr flds \<Longrightarrow>
           R (n, flds, out_base @ parent @ [n @ ''.ts''])"
  shows "distinct (map fst alls') \<and> (\<forall>e \<in> set alls'. R e)"
  using assms
proof (induction cs arbitrary: locs alls)
  case Nil
  then show ?case by simp
next
  case (Cons c cs)
  obtain n cls where c: "c = (n, cls)" by (cases c)
  from Cons.prems(1) c obtain flds where
    e: "extract_serializer_fields cls = Inr flds"
    by (auto split: sum.splits)
  let ?p = "out_base @ parent @ [n @ ''.ts'']"
  let ?alls = "AList.update n (flds, ?p) alls"
  from Cons.prems(1) c e have
    s: "scan_classes out_base parent cs (AList.update n ?p locs, ?alls) = Inr (locs', alls')"
    by (simp add: Let_def)
  have d: "distinct (map fst ?alls)"
    using Cons.prems(2) by (rule AList.distinct_update)
  have "R (n, flds, ?p)" using Cons.prems(4) [of n cls flds] c e by simp
  with Cons.prems(3) update_set_subset [of n "(flds, ?p)" alls]
  have r: "\<forall>e \<in> set ?alls. R e" by blast
  have "R (m, flds', out_base @ parent @ [m @ ''.ts''])"
    if "(m, cls') \<in> set cs" "extract_serializer_fields cls' = Inr flds'" for m cls' flds'
    using Cons.prems(4) [of m cls' flds'] that by simp
  then show ?case
    using Cons.IH [OF s d r] by blast
qed

lemma scan_files_inv:
  assumes "scan_files out_base srcs (locs, alls) = Inr (locs', alls')"
    and "distinct (map fst alls)" and "\<forall>e \<in> set alls. R e"
    and "\<And>n cls parent flds. (n, cls, parent) \<in> set (loader_pairs srcs) \<Longrightarrow>
           extract_serializer_fields cls = Inr flds \<Longrightarrow>
           R (n, flds, out_base @ parent @ [n @ ''.ts''])"
  shows "distinct (map fst alls') \<and> (\<forall>e \<in> set alls'. R e)"
  using assms
proof (induction srcs arbitrary: locs alls)
  case Nil
  then show ?case by simp
next
  case (Cons src srcs)
  have lp: "loader_pairs (src # srcs) = file_pairs src @ loader_pairs srcs"
    by (simp add: loader_pairs_def)
  have rest: "R (n, flds, out_base @ parent @ [n @ ''.ts''])"
    if "(n, cls, parent) \<in> set (loader_pairs srcs)" "extract_serializer_fields cls = Inr flds"
    for n cls parent flds
    using Cons.prems(4) [of n cls parent flds] that by (simp add: lp)
  show ?case
  proof (cases "prefix ''__'' (file_name (rel_parts src))")
    case True
    with Cons.prems(1) have "scan_files out_base srcs (locs, alls) = Inr (locs', alls')"
      by simp
    from Cons.IH [OF this Cons.prems(2,3)] rest show ?thesis by blast
  next
    case False
    from Cons.prems(1) False obtain mp classes st1 where
      mp: "module_path_of (rel_parts src) = Inr mp"
      and cl: "find_serializer_classes src mp = Inr classes"
      and s1: "scan_classes out_base (butlast (rel_parts src)) classes (locs, alls) = Inr st1"
      and s2: "scan_files out_base srcs st1 = Inr (locs', alls')"
      by (auto split: sum.splits)
    obtain locs1 alls1 where st1: "st1 = (locs1, alls1)" by (cases st1)
    have here: "file_pairs src = map (\<lambda>(n, cls). (n, cls, butlast (rel_parts src))) classes"
      using False mp cl by (simp add: file_pairs_def)
    have "R (n, flds, out_base @ butlast (rel_parts src) @ [n @ ''.ts''])"
      if "(n, cls) \<in> set classes" "extract_serializer_fields cls = Inr flds" for n cls flds
    proof -
      from that(1) have "(n, cls, butlast (rel_parts src)) \<in> set (loader_pairs (src # srcs))"
        unfolding lp here by force
      then show ?thesis using that(2) by (rule Cons.prems(4))
    qed
    from scan_classes_inv [OF s1 [unfolded st1] Cons.prems(2,3) this]
    have i1: "distinct (map fst alls1)" "\<forall>e \<in> set alls1. R e" by simp_all
    from Cons.IH [OF s2 [unfolded st1] i1] rest show ?thesis by blast
  qed
qed




section \<open>Dependencies named like a type of the table\<close>

lemma fold_update_fresh:
  assumes "distinct (map fst items)" and "fst ` set items \<inter> fst ` set acc = {}"
  shows "fold (\<lambda>(n, f) acc. AList.update n (g f) acc) items acc =
         acc @ map (\<lambda>(n, f). (n, g f)) items"
  using assms
proof (induction items arbitrary: acc)
  case Nil
  then show ?case by simp
next
  case (Cons it items)
  obtain n f where it: "it = (n, f)" by (cases it)
  from Cons.prems(2) it have "n \<notin> fst ` set acc" by auto
  then have u: "AList.update n (g f) acc = acc @ [(n, g f)]" by (rule update_fresh)
  have "distinct (map fst items)" using Cons.prems(1) by simp
  moreover have "fst ` set items \<inter> fst ` set (acc @ [(n, g f)]) = {}"
    using Cons.prems it by auto
  ultimately show ?case using Cons.IH [of "acc @ [(n, g f)]"] by (simp add: it u)
qed

lemma extract_map:
  assumes "get_fields cls = Some items" and "distinct (map fst items)"
  shows "extract_serializer_fields cls =
         Inr (map (\<lambda>(n, field). (n, field_ts_type field)) items)"
  using assms fold_update_fresh [of items "[]" field_ts_type]
  by (simp add: extract_serializer_fields_def)

lemma strip_brackets_absent:
  "CHR ''['' \<notin> set d \<Longrightarrow> str_replace ''[]'' [] d = d"
proof (induction d)
  case Nil
  show ?case by (simp add: str_replace_Nil)
next
  case (Cons x d)
  then have "\<not> prefix ''[]'' (x # d)" by auto
  then show ?case using Cons by (simp add: str_replace_Cons_other)
qed

lemma strip_brackets_suffix:
  "CHR ''['' \<notin> set d \<Longrightarrow> str_replace ''[]'' [] (d @ ''[]'') = d"
proof (induction d)
  case Nil
  show ?case using str_replace_match [of "''[]''" "[]" "[]"] by (simp add: str_replace_Nil)
next
  case (Cons x d)
  then have "\<not> prefix ''[]'' (x # d @ ''[]'')" by auto
  then show ?case using Cons by (simp add: str_replace_Cons_other)
qed

lemma list_type_in_table:
  "d @ ''[]'' \<in> set field_type_values \<longleftrightarrow> d = ''any'' \<or> d = ''number''"
proof -
  have e: "(d @ ''[]'' = v) = (CHR '']'' # CHR ''['' # rev d = rev v)" for v
    using rev_is_rev_conv [of "d @ ''[]''" v] by simp
  have "d @ ''[]'' \<in> set field_type_values \<longleftrightarrow> (\<exists>v \<in> set field_type_values. d @ ''[]'' = v)"
    by auto
  also have "\<dots> \<longleftrightarrow> rev d = ''yna'' \<or> rev d = ''rebmun''"
    unfolding e by (simp add: field_type_values_def FIELD_TYPE_MAP_def)
  also have "\<dots> \<longleftrightarrow> d = ''any'' \<or> d = ''number''"
    using rev_swap [of d "''yna''"] rev_swap [of d "''rebmun''"] by simp
  finally show ?thesis .
qed

lemma list_type_not_any: "d @ ''[]'' \<noteq> ''any''"
proof
  assume "d @ ''[]'' = ''any''"
  then have "rev (d @ ''[]'') = rev ''any''" by simp
  then show False by simp
qed

lemma field_type_get_primitive:
  "field_type_get k \<in> set field_type_values \<or> field_type_get k = ''any''"
proof (cases "map_of FIELD_TYPE_MAP k")
  case None
  then show ?thesis by (simp add: field_type_get_def)
next
  case (Some t)
  then have "(k, t) \<in> set FIELD_TYPE_MAP" by (rule map_of_SomeD)
  then have "t \<in> set field_type_values" by (force simp: field_type_values_def)
  with Some show ?thesis by (simp add: field_type_get_def)
qed

lemma field_contributes:
  assumes d: "d \<in> set field_type_values \<or> d = ''any''"
    and ids: "CHR ''['' \<notin> set (fclass_name field)"
      "\<forall>c. child_class_name field = Some c \<longrightarrow> CHR ''['' \<notin> set c"
  shows "(field_ts_type field \<notin> set field_type_values \<and> field_ts_type field \<noteq> ''any'' \<and>
          str_replace ''[]'' [] (field_ts_type field) = d) \<longleftrightarrow>
         (is_list_serializer field \<and> (\<exists>c. child_class_name field = Some c \<and> derived_name c = d) \<and>
          d \<noteq> ''any'' \<and> d \<noteq> ''number'')"
proof (cases "is_list_serializer field \<and> child_class_name field \<noteq> None")
  case True
  then obtain c where c: "child_class_name field = Some c" by auto
  with True have t: "field_ts_type field = derived_name c @ ''[]''"
    by (simp add: field_ts_type_def)
  from ids(2) c have "CHR ''['' \<notin> set c" by simp
  moreover have "set (derived_name c) \<subseteq> set c"
    unfolding derived_name_def by (rule str_replace_set)
  ultimately have "CHR ''['' \<notin> set (derived_name c)" by blast
  then have s: "str_replace ''[]'' [] (derived_name c @ ''[]'') = derived_name c"
    by (rule strip_brackets_suffix)
  show ?thesis
    using True c by (auto simp: s t list_type_in_table list_type_not_any)
next
  case False
  show ?thesis
  proof (cases "is_base_serializer field")
    case base: True
    with False have t: "field_ts_type field = derived_name (fclass_name field)"
      by (auto simp: field_ts_type_def)
    have "set (derived_name (fclass_name field)) \<subseteq> set (fclass_name field)"
      unfolding derived_name_def by (rule str_replace_set)
    with ids(1) have "CHR ''['' \<notin> set (field_ts_type field)" unfolding t by blast
    then have "str_replace ''[]'' [] (field_ts_type field) = field_ts_type field"
      by (rule strip_brackets_absent)
    with d False show ?thesis by auto
  next
    case plain: False
    with False have "field_ts_type field = field_type_get (fclass_name field)"
      by (auto simp: field_ts_type_def)
    with field_type_get_primitive [of "fclass_name field"] False show ?thesis by auto
  qed
qed

text \<open>
  C10 (as the code has it). The test against the values of \<open>FIELD_TYPE_MAP\<close> is made on
  the type string before \<open>[]\<close> is removed. Let \<open>d\<close> be a value of the table or \<open>any\<close>, and
  let no class name of a field or of a child contain a bracket. Then \<open>d\<close> is in the
  dependency set of a class exactly when one of its fields is a \<open>ListSerializer\<close> whose
  child derives to \<open>d\<close>, and \<open>d\<close> is neither \<open>any\<close> nor \<open>number\<close> (whose list forms
  \<open>any[]\<close> and \<open>number[]\<close> are values of the table). A single nested serializer never
  makes such a name a dependency. An import line for \<open>d\<close> is written exactly when \<open>d\<close> is
  in the dependency set, is not the interface's own name and has a known location.
\<close>

theorem primitive_named_dependency:
  assumes "get_fields cls = Some items" and "distinct (map fst items)"
    and ids: "\<forall>(n, field) \<in> set items. CHR ''['' \<notin> set (fclass_name field) \<and>
           (\<forall>c. child_class_name field = Some c \<longrightarrow> CHR ''['' \<notin> set c)"
    and d: "d \<in> set field_type_values \<or> d = ''any''"
  shows "\<exists>flds. extract_serializer_fields cls = Inr flds \<and>
    (d \<in> deps_of flds \<longleftrightarrow>
       (\<exists>(n, field) \<in> set items. is_list_serializer field \<and>
          (\<exists>c. child_class_name field = Some c \<and> str_replace ''Serializer'' [] c = d)) \<and>
       d \<noteq> ''any'' \<and> d \<noteq> ''number'') \<and>
    (\<exists>ds. import_lines name locs current_dir (sorted_list_of_set (deps_of flds)) =
            map (\<lambda>dep. import_line dep (rel_import (the (map_of locs dep)) current_dir)) ds \<and>
          (d \<in> set ds \<longleftrightarrow> d \<in> deps_of flds \<and> d \<noteq> name \<and> map_of locs d \<noteq> None))"
proof -
  let ?flds = "map (\<lambda>(n, field). (n, field_ts_type field)) items"
  have ex: "extract_serializer_fields cls = Inr ?flds"
    using assms(1,2) by (rule extract_map)
  have "d \<in> deps_of ?flds \<longleftrightarrow>
      (\<exists>(n, field) \<in> set items. field_ts_type field \<notin> set field_type_values \<and>
         field_ts_type field \<noteq> ''any'' \<and> str_replace ''[]'' [] (field_ts_type field) = d)"
    by (force simp: deps_of_iff)
  also have "\<dots> \<longleftrightarrow>
      (\<exists>(n, field) \<in> set items. is_list_serializer field \<and>
         (\<exists>c. child_class_name field = Some c \<and> derived_name c = d) \<and>
         d \<noteq> ''any'' \<and> d \<noteq> ''number'')"
  proof (rule bex_cong [OF refl])
    fix it assume "it \<in> set items"
    with ids have "CHR ''['' \<notin> set (fclass_name (snd it))"
      "\<forall>c. child_class_name (snd it) = Some c \<longrightarrow> CHR ''['' \<notin> set c"
      by (auto simp: case_prod_beta)
    from field_contributes [OF d this]
    show "(case it of (n, field) \<Rightarrow> field_ts_type field \<notin> set field_type_values \<and>
         field_ts_type field \<noteq> ''any'' \<and> str_replace ''[]'' [] (field_ts_type field) = d) =
      (case it of (n, field) \<Rightarrow> is_list_serializer field \<and>
         (\<exists>c. child_class_name field = Some c \<and> derived_name c = d) \<and>
         d \<noteq> ''any'' \<and> d \<noteq> ''number'')"
      by (simp add: case_prod_beta)
  qed
  also have "\<dots> \<longleftrightarrow>
      (\<exists>(n, field) \<in> set items. is_list_serializer field \<and>
          (\<exists>c. child_class_name field = Some c \<and> str_replace ''Serializer'' [] c = d)) \<and>
       d \<noteq> ''any'' \<and> d \<noteq> ''number''"
    unfolding derived_name_def by blast
  finally have dep: "d \<in> deps_of ?flds \<longleftrightarrow>
      (\<exists>(n, field) \<in> set items. is_list_serializer field \<and>
          (\<exists>c. child_class_name field = Some c \<and> str_replace ''Serializer'' [] c = d)) \<and>
       d \<noteq> ''any'' \<and> d \<noteq> ''number''" .
  let ?ds = "filter (\<lambda>dep. dep \<noteq> name \<and> map_of locs dep \<noteq> None)
     (sorted_list_of_set (deps_of ?flds))"
  have l: "import_lines name locs current_dir (sorted_list_of_set (deps_of ?flds)) =
      map (\<lambda>dep. import_line dep (rel_import (the (map_of locs dep)) current_dir)) ?ds"
    by (rule import_lines_filter)
  have m: "d \<in> set ?ds \<longleftrightarrow> d \<in> deps_of ?flds \<and> d \<noteq> name \<and> map_of locs d \<noteq> None"
    by (auto simp: finite_deps_of)
  from ex dep l m show ?thesis by blast
qed

theorem primitive_named_dependency_witness:
  "(\<exists>flds. extract_serializer_fields owner_class = Inr flds \<and>
      ''string'' \<notin> deps_of flds \<and> ''number'' \<notin> deps_of flds) \<and>
   (\<exists>flds. extract_serializer_fields post_class = Inr flds \<and> ''string'' \<in> deps_of flds)"
proof -
  have v: "''string'' \<in> set field_type_values \<or> ''string'' = ''any''"
    "''number'' \<in> set field_type_values \<or> ''number'' = ''any''"
    by (simp_all add: field_type_values_def FIELD_TYPE_MAP_def)
  have o: "get_fields owner_class =
      Some [(''nick'', nested_field ''stringSerializer''),
            (''scores'', many_field ''numberSerializer'')]"
    by (simp add: owner_class_def serializer_class_def)
  have p: "get_fields post_class = Some [(''labels'', many_field ''stringSerializer'')]"
    by (simp add: post_class_def serializer_class_def)
  have dn: "str_replace ''Serializer'' [] ''stringSerializer'' = ''string''"
    "str_replace ''Serializer'' [] ''numberSerializer'' = ''number''"
    by (simp_all add: str_replace.simps)
  have a: "\<exists>flds. extract_serializer_fields owner_class = Inr flds \<and> ''string'' \<notin> deps_of flds"
    using primitive_named_dependency [OF o _ _ v(1), of "''Owner''" "[]" "[]"]
    by (auto simp: nested_field_def many_field_def dn)
  have b: "\<exists>flds. extract_serializer_fields owner_class = Inr flds \<and> ''number'' \<notin> deps_of flds"
    using primitive_named_dependency [OF o _ _ v(2), of "''Owner''" "[]" "[]"]
    by (auto simp: nested_field_def many_field_def dn)
  have c: "\<exists>flds. extract_serializer_fields post_class = Inr flds \<and> ''string'' \<in> deps_of flds"
    using primitive_named_dependency [OF p _ _ v(1), of "''Post''" "[]" "[]"]
    by (auto simp: many_field_def dn)
  from a b c show ?thesis by auto
qed

text \<open>
  A nested serializer \<open>stringSerializer\<close> declared with \<open>many=True\<close> has the type string
  \<open>string[]\<close>, which is not a value of the table: \<open>string\<close> is in the dependency set and
  is imported when its location is known.
\<close>

theorem primitive_named_dependency_counterexample:
  "derived_name ''stringSerializer'' = ''string'' \<and>
   ''string'' \<in> set field_type_values \<and>
   field_ts_type (many_field ''stringSerializer'') = ''string[]'' \<and>
   ''string'' \<in> deps_of [(''labels'', ''string[]'')] \<and>
   import_lines ''Post'' [(''string'', [''out'', ''string.ts''])] [''out'']
     (sorted_list_of_set (deps_of [(''labels'', ''string[]'')])) =
   [''import type { string } from '' @ [CHR 0x27] @ ''./string'' @ [CHR 0x27] @ '';\<newline>'']"
  by (simp add: derived_name_def str_replace.simps field_type_values_def FIELD_TYPE_MAP_def
      field_ts_type_def many_field_def deps_of_def import_line_def rel_import_def relpath_def
      os_sep_def)

section \<open>Import lines and their paths\<close>











lemma scan_files_shape:
  assumes "scan_files out_base srcs ([], []) = Inr (locs, alls)"
  shows "distinct (map fst alls) \<and>
    (\<forall>(n, flds, p) \<in> set alls. \<exists>cls parent. (n, cls, parent) \<in> set (loader_pairs srcs) \<and>
        extract_serializer_fields cls = Inr flds \<and> p = out_base @ parent @ [n @ ''.ts''])"
proof -
  define R :: "string \<times> (string \<times> string) list \<times> path \<Rightarrow> bool" where
    "R = (\<lambda>(n, flds, p). \<exists>cls parent. (n, cls, parent) \<in> set (loader_pairs srcs) \<and>
        extract_serializer_fields cls = Inr flds \<and> p = out_base @ parent @ [n @ ''.ts''])"
  have "distinct (map fst alls) \<and> (\<forall>e \<in> set alls. R e)"
  proof (rule scan_files_inv [OF assms])
    show "distinct (map fst ([] :: interfaces))" by simp
    show "\<forall>e \<in> set ([] :: interfaces). R e" by simp
    fix n cls parent flds
    assume "(n, cls, parent) \<in> set (loader_pairs srcs)" "extract_serializer_fields cls = Inr flds"
    then show "R (n, flds, out_base @ parent @ [n @ ''.ts''])"
      unfolding R_def by blast
  qed
  then show ?thesis unfolding R_def by blast
qed





section \<open>One file per class\<close>







section \<open>Declarations in the written files\<close>

lemma chunks_shape:
  "ts_interface_chunks name flds deps current_dir locs =
     (import_lines name locs current_dir (sorted_list_of_set deps) @
      (if deps \<noteq> {} then [''\<newline>''] else [])) @
     [''export interface '' @ name @ '' {\<newline>''] @
     map (\<lambda>(field, ts_type). ''  '' @ field @ ''?: '' @ ts_type @ '';\<newline>'') flds @
     [''}\<newline>'']"
  by (simp add: ts_interface_chunks_def field_line_def)

lemma chunks_imports:
  "\<forall>l \<in> set (import_lines name locs current_dir (sorted_list_of_set deps) @
              (if deps \<noteq> {} then [''\<newline>''] else [])).
     l = ''\<newline>'' \<or> prefix ''import'' l"
  using import_lines_hd by auto

lemma chunks_count:
  assumes d: "distinct (map fst flds)"
    and q: "\<forall>field \<in> fst ` set flds. CHR ''?'' \<notin> set field"
    and m: "(field, ts_type) \<in> set flds"
  shows "count_list (ts_interface_chunks name flds deps current_dir locs)
            (''  '' @ field @ ''?: '' @ ts_type @ '';\<newline>'') = 1"
proof -
  let ?imports = "import_lines name locs current_dir (sorted_list_of_set deps) @
     (if deps \<noteq> {} then [''\<newline>''] else [])"
  have chunks: "ts_interface_chunks name flds deps current_dir locs =
         ?imports @ [''export interface '' @ name @ '' {\<newline>''] @ map field_line flds @ [''}\<newline>'']"
    by (simp add: ts_interface_chunks_def)
  let ?l = "field_line (field, ts_type)"
  have inj: "inj_on field_line (set flds)"
  proof (rule inj_onI)
    fix x y assume xy: "x \<in> set flds" "y \<in> set flds" "field_line x = field_line y"
    from xy(1,2) q have "CHR ''?'' \<notin> set (fst x)" "CHR ''?'' \<notin> set (fst y)" by auto
    moreover from xy(3) have "field_line (fst x, snd x) = field_line (fst y, snd y)" by simp
    ultimately have "fst x = fst y \<and> snd x = snd y" by (rule field_line_inj)
    then show "x = y" by (simp add: prod_eq_iff)
  qed
  have "distinct flds" using d by (simp add: distinct_map)
  then have "count_list flds (field, ts_type) = 1"
    using m by (simp add: distinct_count_list)
  then have c1: "count_list (map field_line flds) ?l = 1"
    using count_list_inj_map [OF inj m] by simp
  have "?l \<noteq> ''\<newline>''" "\<not> prefix ''import'' ?l"
    by (simp_all add: field_line_def)
  with chunks_imports [of name locs current_dir deps] have "?l \<notin> set ?imports" by blast
  then have c2: "count_list ?imports ?l = 0" by simp
  have c3: "?l \<noteq> ''export interface '' @ name @ '' {\<newline>''" "?l \<noteq> ''}\<newline>''"
    by (simp_all add: field_line_def)
  have "count_list (ts_interface_chunks name flds deps current_dir locs) ?l = 1"
    unfolding chunks using c1 c2 c3 by simp
  then show ?thesis by (simp add: field_line_def)
qed

text \<open>
  C8. Every interface file a successful run writes is the file of a discovered class, and
  its content is: import lines and possibly a blank line, the opening line of the
  interface, one line \<open>  field?: type;\<close> for each item of the mapping extracted from the
  class, in order, and the closing brace. The field names of the mapping are distinct, and
  when none of them contains a question mark the line of each field occurs exactly once
  among the chunks written to the file.
\<close>

theorem interface_declares_every_field:
  assumes mw: "main_writes out_base tree = Inr ws"
    and m: "(p, content) \<in> set (butlast ws)"
  shows "\<exists>name cls parent flds imports.
     (name, cls, parent) \<in> set (loader_pairs (rglob_py tree)) \<and>
     extract_serializer_fields cls = Inr flds \<and>
     p = out_base @ parent @ [name @ ''.ts''] \<and>
     distinct (map fst flds) \<and>
     (\<forall>l \<in> set imports. l = ''\<newline>'' \<or> prefix ''import'' l) \<and>
     content =
       concat (imports @ [''export interface '' @ name @ '' {\<newline>''] @
               map (\<lambda>(field, ts_type). ''  '' @ field @ ''?: '' @ ts_type @ '';\<newline>'') flds @
               [''}\<newline>'']) \<and>
     ((\<forall>field \<in> fst ` set flds. CHR ''?'' \<notin> set field) \<longrightarrow>
        (\<forall>(field, ts_type) \<in> set flds.
           count_list
             (imports @ [''export interface '' @ name @ '' {\<newline>''] @
              map (\<lambda>(field, ts_type). ''  '' @ field @ ''?: '' @ ts_type @ '';\<newline>'') flds @
              [''}\<newline>''])
             (''  '' @ field @ ''?: '' @ ts_type @ '';\<newline>'') = 1))"
proof -
  from main_writes_Inr [OF mw] obtain locs alls where
    sc: "scan_files out_base (rglob_py tree) ([], []) = Inr (locs, alls)"
    and ws: "ws = map (\<lambda>(name, flds, out_path).
                 write_ts_interface name flds out_path (deps_of flds) (butlast out_path) locs)
            alls @
          [(out_base @ [TEMP_INDEX_FILENAME],
            index_content (map (\<lambda>(name, flds, out_path). export_line out_path out_base) alls))]"
    by blast
  let ?W = "\<lambda>(name, flds, out_path).
           write_ts_interface name flds out_path (deps_of flds) (butlast out_path) locs"
  from m have "(p, content) \<in> set (map ?W alls)" by (simp add: ws)
  then obtain e where e: "e \<in> set alls" "?W e = (p, content)" by auto
  obtain name flds q where ee: "e = (name, flds, q)" by (cases e)
  from scan_files_shape [OF sc] e(1) ee obtain cls parent where
    pr: "(name, cls, parent) \<in> set (loader_pairs (rglob_py tree))"
    and ex: "extract_serializer_fields cls = Inr flds"
    and q: "q = out_base @ parent @ [name @ ''.ts'']"
    by blast
  let ?imports = "import_lines name locs (butlast q) (sorted_list_of_set (deps_of flds)) @
      (if deps_of flds \<noteq> {} then [''\<newline>''] else [])"
  let ?chunks = "?imports @ [''export interface '' @ name @ '' {\<newline>''] @
      map (\<lambda>(field, ts_type). ''  '' @ field @ ''?: '' @ ts_type @ '';\<newline>'') flds @ [''}\<newline>'']"
  have sh: "ts_interface_chunks name flds (deps_of flds) (butlast q) locs = ?chunks"
    by (rule chunks_shape)
  have "?W e = (q, concat (ts_interface_chunks name flds (deps_of flds) (butlast q) locs))"
    by (simp add: ee write_ts_interface_def)
  with e(2) have
    "(p, content) = (q, concat (ts_interface_chunks name flds (deps_of flds) (butlast q) locs))"
    by (simp only:)
  then have pq: "p = q"
    and c0: "content = concat (ts_interface_chunks name flds (deps_of flds) (butlast q) locs)"
    by (simp_all only: prod.inject)
  have c: "content = concat ?chunks" using c0 unfolding sh .
  have d: "distinct (map fst flds)" using ex by (rule extract_distinct)
  have i: "\<forall>l \<in> set ?imports. l = ''\<newline>'' \<or> prefix ''import'' l" by (rule chunks_imports)
  have k: "(\<forall>field \<in> fst ` set flds. CHR ''?'' \<notin> set field) \<longrightarrow>
        (\<forall>(field, ts_type) \<in> set flds.
           count_list ?chunks (''  '' @ field @ ''?: '' @ ts_type @ '';\<newline>'') = 1)"
  proof (intro impI, clarify)
    fix field ts_type
    assume "\<forall>field \<in> fst ` set flds. CHR ''?'' \<notin> set field" "(field, ts_type) \<in> set flds"
    with d show "count_list ?chunks (''  '' @ field @ ''?: '' @ ts_type @ '';\<newline>'') = 1"
      unfolding sh [symmetric] by (rule chunks_count)
  qed
  have p': "p = out_base @ parent @ [name @ ''.ts'']" using pq q by simp
  show ?thesis
    apply (rule exI [of _ name])
    apply (rule exI [of _ cls])
    apply (rule exI [of _ parent])
    apply (rule exI [of _ flds])
    apply (rule exI [of _ ?imports])
    using pr ex p' d i c k apply (intro conjI)
          apply assumption+
    done
qed

theorem interface_declares_every_field_witness:
  "main_writes [''out''] example_tree = Inr example_writes \<and>
   (\<exists>name cls parent flds imports.
     (name, cls, parent) \<in> set (loader_pairs (rglob_py example_tree)) \<and>
     extract_serializer_fields cls = Inr flds \<and>
     [''out'', ''lib'', ''Book.ts''] = [''out''] @ parent @ [name @ ''.ts''] \<and>
     distinct (map fst flds) \<and>
     snd (example_writes ! 1) =
       concat (imports @ [''export interface '' @ name @ '' {\<newline>''] @
               map (\<lambda>(field, ts_type). ''  '' @ field @ ''?: '' @ ts_type @ '';\<newline>'') flds @
               [''}\<newline>'']))"
proof -
  have m: "([''out'', ''lib'', ''Book.ts''], snd (example_writes ! 1)) \<in> set (butlast example_writes)"
    by (simp add: example_writes_def)
  show ?thesis
    using interface_declares_every_field [OF example_run m]
    apply (elim exE conjE)
    subgoal premises prems for name cls parent flds imps
      apply (rule conjI [OF example_run])
      apply (rule exI [of _ name])
      apply (rule exI [of _ cls])
      apply (rule exI [of _ parent])
      apply (rule exI [of _ flds])
      apply (rule exI [of _ imps])
      using prems(1,2,3,4,6) apply (intro conjI)
          apply assumption+
      done
    done
qed

end
